theory Spec2Isabelle
  imports Complex_Main
begin

section \<open>Numbers, nodes and the road graph\<close>

text \<open>
  The simulator is Python. Its floats are idealised as reals, extended with the three
  special values that the pathfinder's weights can take: the penalty
  \<^verbatim>\<open>float('inf')\<close>, and what a product with it gives for a negative or a zero
  length. Rounding is not modelled.
\<close>

datatype pyfloat = Fin real | PInf | MInf | NaN

fun pf_add :: "pyfloat \<Rightarrow> pyfloat \<Rightarrow> pyfloat" where
  "pf_add (Fin a) (Fin b) = Fin (a + b)"
| "pf_add (Fin a) PInf = PInf"
| "pf_add (Fin a) MInf = MInf"
| "pf_add PInf (Fin b) = PInf"
| "pf_add PInf PInf = PInf"
| "pf_add MInf (Fin b) = MInf"
| "pf_add MInf MInf = MInf"
| "pf_add _ _ = NaN"

fun pf_mul :: "pyfloat \<Rightarrow> pyfloat \<Rightarrow> pyfloat" where
  "pf_mul (Fin a) (Fin b) = Fin (a * b)"
| "pf_mul (Fin a) PInf = (if 0 < a then PInf else if a < 0 then MInf else NaN)"
| "pf_mul (Fin a) MInf = (if 0 < a then MInf else if a < 0 then PInf else NaN)"
| "pf_mul PInf (Fin b) = (if 0 < b then PInf else if b < 0 then MInf else NaN)"
| "pf_mul MInf (Fin b) = (if 0 < b then MInf else if b < 0 then PInf else NaN)"
| "pf_mul PInf PInf = PInf"
| "pf_mul MInf MInf = PInf"
| "pf_mul PInf MInf = MInf"
| "pf_mul MInf PInf = MInf"
| "pf_mul _ _ = NaN"

text \<open>Division by a positive finite number, the only division the pathfinder makes.\<close>

fun pf_div :: "pyfloat \<Rightarrow> real \<Rightarrow> pyfloat" where
  "pf_div (Fin a) m = Fin (a / m)"
| "pf_div PInf m = PInf"
| "pf_div MInf m = MInf"
| "pf_div NaN m = NaN"

fun pf_lt :: "pyfloat \<Rightarrow> pyfloat \<Rightarrow> bool" where
  "pf_lt (Fin a) (Fin b) = (a < b)"
| "pf_lt (Fin a) PInf = True"
| "pf_lt MInf (Fin b) = True"
| "pf_lt MInf PInf = True"
| "pf_lt _ _ = False"

text \<open>Python's \<^verbatim>\<open>==\<close> on floats: a NaN equals nothing.\<close>

fun pf_eq :: "pyfloat \<Rightarrow> pyfloat \<Rightarrow> bool" where
  "pf_eq NaN _ = False"
| "pf_eq _ NaN = False"
| "pf_eq a b = (a = b)"

text \<open>
  Node identifiers are the integer ids of the map data. An edge carries the attributes
  the simulator reads. \<^verbatim>\<open>length\<close> is optional: the graph conversion copies it only
  when the map data has it, and every reader supplies a default. The two proneness values
  and the two transient flags are present on every edge:
  \<^verbatim>\<open>initialize_edge_disaster_attributes\<close> sets all four on each edge before any
  simulation starts.
\<close>

type_synonym node = int

record edge_data =
  length_attr :: "real option"
  flood_prone :: real
  landslide_prone :: real
  currently_flooded :: bool
  currently_landslide :: bool

type_synonym edge = "(node \<times> node) \<times> edge_data"

text \<open>
  A directed graph: the nodes added on their own, and the edges in the order in which
  \<^verbatim>\<open>G.edges(data=True)\<close> iterates over them. As in networkx, the endpoints of an
  edge are nodes of the graph, and an edge is looked up by its pair of endpoints.
\<close>

record graph =
  nodes_list :: "node list"
  edges_list :: "edge list"

definition g_nodes :: "graph \<Rightarrow> node list" where
  "g_nodes G = nodes_list G @ concat (map (\<lambda>((u, v), d). [u, v]) (edges_list G))"

definition has_node :: "graph \<Rightarrow> node \<Rightarrow> bool" where
  "has_node G n = (n \<in> set (g_nodes G))"

definition get_edge_data :: "graph \<Rightarrow> node \<Rightarrow> node \<Rightarrow> edge_data option" where
  "get_edge_data G u v = map_of (edges_list G) (u, v)"

definition has_edge :: "graph \<Rightarrow> node \<Rightarrow> node \<Rightarrow> bool" where
  "has_edge G u v = (get_edge_data G u v \<noteq> None)"

section \<open>Rain levels\<close>

record rain_params =
  flood_activation :: real
  landslide_activation :: real
  speed_multiplier :: real

definition rain_effects :: "(int \<times> rain_params) list" where
  "rain_effects =
    [(1, \<lparr>flood_activation = 0.10, landslide_activation = 0.00, speed_multiplier = 1.0\<rparr>),
     (2, \<lparr>flood_activation = 0.30, landslide_activation = 0.05, speed_multiplier = 0.8\<rparr>),
     (3, \<lparr>flood_activation = 0.60, landslide_activation = 0.15, speed_multiplier = 0.6\<rparr>),
     (4, \<lparr>flood_activation = 0.90, landslide_activation = 0.30, speed_multiplier = 0.4\<rparr>),
     (5, \<lparr>flood_activation = 1.00, landslide_activation = 1.00, speed_multiplier = 0.0\<rparr>)]"

text \<open>\<^verbatim>\<open>rain_effects.get(rain_intensity, rain_effects[1])\<close>\<close>

definition rain_intensity_effects :: "int \<Rightarrow> rain_params" where
  "rain_intensity_effects rain_intensity =
    (case map_of rain_effects rain_intensity of
       Some p \<Rightarrow> p
     | None \<Rightarrow> \<lparr>flood_activation = 0.10, landslide_activation = 0.00, speed_multiplier = 1.0\<rparr>)"

section \<open>Disaster activation\<close>

text \<open>
  The thresholds that \<^verbatim>\<open>activate_disasters\<close> computes before its loop: the
  activation values of the rain level, scaled when \<^verbatim>\<open>rain_intensity >= 4\<close>.
\<close>

definition disaster_thresholds :: "int \<Rightarrow> real \<times> real" where
  "disaster_thresholds rain_intensity =
    (let rain_params = rain_intensity_effects rain_intensity;
         flood_threshold = flood_activation rain_params;
         landslide_threshold = landslide_activation rain_params
     in if rain_intensity \<ge> 4
        then (flood_threshold * 1.2, landslide_threshold * 1.3)
        else (flood_threshold, landslide_threshold))"

text \<open>
  \<^verbatim>\<open>random.random()\<close> is an input of the model: \<open>rnd k\<close> is the value of the
  \<open>k\<close>-th call, a number in \<open>[0, 1)\<close>. The loop over the edges makes two calls per
  edge, writes both flags of the edge and counts the flags it sets.
\<close>

fun activate_loop ::
  "real \<Rightarrow> real \<Rightarrow> (nat \<Rightarrow> real) \<Rightarrow> nat \<Rightarrow> edge list \<Rightarrow> nat \<times> nat \<Rightarrow> edge list \<times> (nat \<times> nat)" where
  "activate_loop ft lt rnd k [] acc = ([], acc)"
| "activate_loop ft lt rnd k ((uv, d) # es) (floods, landslides) =
    (let flooded = (rnd k < flood_prone d * ft);
         slid = (rnd (k + 1) < landslide_prone d * lt);
         d' = d\<lparr>currently_flooded := flooded, currently_landslide := slid\<rparr>;
         (es', acc') = activate_loop ft lt rnd (k + 2) es
                         (if flooded then floods + 1 else floods,
                          if slid then landslides + 1 else landslides)
     in ((uv, d') # es', acc'))"

text \<open>
  The result is the graph after the call, the pair of counts (floods, landslides) the
  call returns, and the number of random values consumed so far.
\<close>

definition activate_disasters ::
  "graph \<Rightarrow> int \<Rightarrow> (nat \<Rightarrow> real) \<Rightarrow> nat \<Rightarrow> graph \<times> (nat \<times> nat) \<times> nat" where
  "activate_disasters G rain_intensity rnd k =
    (let (ft, lt) = disaster_thresholds rain_intensity;
         (es', counts) = activate_loop ft lt rnd k (edges_list G) (0, 0)
     in (G\<lparr>edges_list := es'\<rparr>, counts, k + 2 * length (edges_list G)))"

section \<open>The shortest-path call\<close>

text \<open>
  The exceptions of Python that the simulator can meet.
\<close>

datatype py_error = KeyError | ZeroDivisionError | ValueError | NetworkXNoPath | NodeNotFound

text \<open>
  \<^verbatim>\<open>nx.shortest_path(G_temp, source, target, weight='adjusted_weight')\<close> is a call into
  the networkx library, which is not part of the repository. With a source, a target and
  a weight it runs the library's \<^verbatim>\<open>bidirectional_dijkstra\<close> and returns its path. The
  definitions below follow that library function statement by statement: two searches,
  forward along the successors from the source and backward along the predecessors from
  the target, taking turns; per direction the final distances \<open>dists\<close>, the tentative
  distances \<open>seen\<close>, the path to every seen node, and a heap \<open>fringe\<close> of entries
  (distance, counter, node). An edge whose weight is infinite is relaxed like any other
  edge: the library hides an edge only when its weight function returns
  \<^verbatim>\<open>None\<close>, which the attribute lookup used here never does.

  A heap pop returns the least entry in Python's tuple order. That is what the heap
  yields when its entries are totally ordered, which they are unless a weight is NaN;
  the position of entries inside the heap is not modelled. The loop pops a heap only
  after testing that it is not empty.
\<close>

type_synonym heap_entry = "pyfloat \<times> nat \<times> node"

fun entry_lt :: "heap_entry \<Rightarrow> heap_entry \<Rightarrow> bool" where
  "entry_lt (d1, c1, v1) (d2, c2, v2) =
    (if \<not> pf_eq d1 d2 then pf_lt d1 d2 else if c1 \<noteq> c2 then c1 < c2 else v1 < v2)"

fun heap_min :: "heap_entry \<Rightarrow> heap_entry list \<Rightarrow> heap_entry" where
  "heap_min m [] = m"
| "heap_min m (x # xs) = heap_min (if entry_lt x m then x else m) xs"

fun heappop :: "heap_entry list \<Rightarrow> heap_entry \<times> heap_entry list" where
  "heappop (x # xs) = (let m = heap_min x xs in (m, remove1 m (x # xs)))"
| "heappop [] = ((NaN, 0, 0), [])"

definition heappush :: "heap_entry list \<Rightarrow> heap_entry \<Rightarrow> heap_entry list" where
  "heappush h e = h @ [e]"

text \<open>The two-element lists \<^verbatim>\<open>[forward, backward]\<close>, indexed by the direction.\<close>

definition ix :: "nat \<Rightarrow> 'a \<times> 'a \<Rightarrow> 'a" where
  "ix dr p = (if dr = 0 then fst p else snd p)"

definition ix_set :: "nat \<Rightarrow> 'a \<Rightarrow> 'a \<times> 'a \<Rightarrow> 'a \<times> 'a" where
  "ix_set dr x p = (if dr = 0 then (x, snd p) else (fst p, x))"

record bd_state =
  dists :: "(node \<times> pyfloat) list \<times> (node \<times> pyfloat) list"
  paths :: "(node \<times> node list) list \<times> (node \<times> node list) list"
  fringe :: "heap_entry list \<times> heap_entry list"
  seen :: "(node \<times> pyfloat) list \<times> (node \<times> pyfloat) list"
  c :: nat
  finaldist :: pyfloat
  finalpath :: "node list"
  dir :: nat

text \<open>\<^verbatim>\<open>neighs = [G._succ, G._pred]\<close>: the graph is directed.\<close>

definition neighs :: "graph \<Rightarrow> nat \<Rightarrow> node \<Rightarrow> (node \<times> edge_data) list" where
  "neighs G dr v =
    (if dr = 0 then map (\<lambda>((u, w), d). (w, d)) (filter (\<lambda>((u, w), d). u = v) (edges_list G))
     else map (\<lambda>((u, w), d). (u, d)) (filter (\<lambda>((u, w), d). w = v) (edges_list G)))"

text \<open>
  The loop over the neighbours of the node \<open>v\<close> just settled at distance \<open>dist_v\<close>
  (the value of \<^verbatim>\<open>dists[dir][v]\<close> throughout that loop). A dictionary read of a
  missing key raises \<^verbatim>\<open>KeyError\<close>.
\<close>

fun relax ::
  "(edge_data \<Rightarrow> pyfloat) \<Rightarrow> node \<Rightarrow> pyfloat \<Rightarrow> (node \<times> edge_data) list \<Rightarrow> bd_state
     \<Rightarrow> py_error + bd_state" where
  "relax weight v dist_v [] s = Inr s"
| "relax weight v dist_v ((w, d) # ns) s =
    (let dr = dir s;
         cost = weight d;
         vwLength = pf_add dist_v cost
     in case map_of (ix dr (dists s)) w of
          Some dw \<Rightarrow>
            if pf_lt vwLength dw then Inl ValueError else relax weight v dist_v ns s
        | None \<Rightarrow>
            if (case map_of (ix dr (seen s)) w of None \<Rightarrow> True | Some sw \<Rightarrow> pf_lt vwLength sw)
            then
              (case map_of (ix dr (paths s)) v of
                 None \<Rightarrow> Inl KeyError
               | Some pv \<Rightarrow>
                  (let s1 = s\<lparr>seen := ix_set dr ((w, vwLength) # ix dr (seen s)) (seen s),
                              fringe := ix_set dr (heappush (ix dr (fringe s)) (vwLength, c s, w)) (fringe s),
                              c := c s + 1,
                              paths := ix_set dr ((w, pv @ [w]) # ix dr (paths s)) (paths s)\<rparr>
                   in case (map_of (fst (seen s1)) w, map_of (snd (seen s1)) w) of
                        (Some s0w, Some s1w) \<Rightarrow>
                          (let totaldist = pf_add s0w s1w
                           in if finalpath s1 = [] \<or> pf_lt totaldist (finaldist s1)
                              then (case (map_of (fst (paths s1)) w, map_of (snd (paths s1)) w) of
                                      (Some p0, Some p1) \<Rightarrow>
                                        relax weight v dist_v ns
                                          (s1\<lparr>finaldist := totaldist, finalpath := p0 @ tl (rev p1)\<rparr>)
                                    | _ \<Rightarrow> Inl KeyError)
                              else relax weight v dist_v ns s1)
                      | _ \<Rightarrow> relax weight v dist_v ns s1))
            else relax weight v dist_v ns s)"

text \<open>
  The main loop, \<^verbatim>\<open>while fringe[0] and fringe[1]\<close>. It ends by returning the best
  path found when a node is settled in both directions, or by raising
  \<^verbatim>\<open>NetworkXNoPath\<close> when a fringe runs empty.
\<close>

function bd_loop :: "graph \<Rightarrow> (edge_data \<Rightarrow> pyfloat) \<Rightarrow> bd_state \<Rightarrow> py_error + (pyfloat \<times> node list)" where
  "bd_loop G weight s =
    (if fst (fringe s) = [] \<or> snd (fringe s) = [] then Inl NetworkXNoPath
     else
       (let dr = 1 - dir s;
            popped = heappop (ix dr (fringe s));
            dist_v = fst (fst popped);
            v = snd (snd (fst popped));
            s1 = s\<lparr>dir := dr, fringe := ix_set dr (snd popped) (fringe s)\<rparr>
        in if map_of (ix dr (dists s1)) v \<noteq> None then bd_loop G weight s1
           else
             (let s2 = s1\<lparr>dists := ix_set dr ((v, dist_v) # ix dr (dists s1)) (dists s1)\<rparr>
              in if map_of (ix (1 - dr) (dists s2)) v \<noteq> None
                 then Inr (finaldist s2, finalpath s2)
                 else (case relax weight v dist_v (neighs G dr v) s2 of
                         Inl e \<Rightarrow> Inl e
                       | Inr s3 \<Rightarrow> bd_loop G weight s3))))"
  by pat_completeness auto

text \<open>
  The loop terminates: every round either settles a node of the graph in one direction,
  or takes an entry off a fringe without adding one. The measure counts the pairs of a
  direction and a node not yet settled, then the entries on the two fringes.
\<close>

definition unsettled :: "graph \<Rightarrow> bd_state \<Rightarrow> (nat \<times> node) set" where
  "unsettled G s =
     ({0} \<times> (set (g_nodes G) - fst ` set (fst (dists s)))) \<union>
     ({1} \<times> (set (g_nodes G) - fst ` set (snd (dists s))))"

definition fringe_size :: "bd_state \<Rightarrow> nat" where
  "fringe_size s = length (fst (fringe s)) + length (snd (fringe s))"

lemma heap_min_in: "heap_min m xs \<in> set (m # xs)"
  by (induction xs arbitrary: m) (auto split: if_splits)

lemma heappop_length: "h \<noteq> [] \<Longrightarrow> length (snd (heappop h)) < length h"
proof (cases h)
  case Nil
  then show "h \<noteq> [] \<Longrightarrow> ?thesis" by simp
next
  case (Cons x xs)
  have "heap_min x xs \<in> set (x # xs)" by (rule heap_min_in)
  then have "length (remove1 (heap_min x xs) (x # xs)) < length (x # xs)"
    by (simp only: length_remove1) simp
  then show ?thesis using Cons by (simp add: Let_def)
qed

lemma relax_keeps:
  "relax weight v dv ns s = Inr s' \<Longrightarrow> dists s' = dists s \<and> dir s' = dir s"
proof (induction ns arbitrary: s)
  case Nil
  then show ?case by simp
next
  case (Cons n ns)
  obtain w d where n: "n = (w, d)" by (cases n)
  from Cons.prems show ?case
    unfolding n
    by (auto simp: Let_def split: option.splits if_splits prod.splits dest!: Cons.IH)
qed

lemma neighs_outside: "v \<notin> set (g_nodes G) \<Longrightarrow> neighs G dr v = []"
  by (auto simp: neighs_def g_nodes_def filter_empty_conv)

lemma finite_unsettled: "finite (unsettled G s)"
  by (simp add: unsettled_def)

lemma unsettled_settle:
  assumes "map_of (ix dr (dists s)) v = None" "dr = 0 \<or> dr = 1"
  shows "unsettled G (s\<lparr>dists := ix_set dr ((v, dv) # ix dr (dists s)) (dists s)\<rparr>)
           = unsettled G s - {(dr, v)}"
  using assms by (auto simp: unsettled_def ix_def ix_set_def)

termination bd_loop
proof (relation "inv_image (less_than <*lex*> less_than)
          (\<lambda>(G, weight, s). (card (unsettled G s), fringe_size s))", goal_cases)
  case 1
  show ?case by (intro wf_inv_image wf_lex_prod wf_less_than)
next
  case (2 G weight s dr popped dv v s1)
  have ne: "ix dr (fringe s) \<noteq> []" using 2(1) by (auto simp: ix_def)
  have "fringe_size s1 < fringe_size s"
    using heappop_length[OF ne] 2(3,6) by (auto simp: fringe_size_def ix_def ix_set_def)
  moreover have "unsettled G s1 = unsettled G s" using 2(6) by (simp add: unsettled_def)
  ultimately show ?case by simp
next
  case (3 G weight s dr popped dv v s1 s2 s3)
  have drv: "dr = 0 \<or> dr = 1" using 3(2) by auto
  have ne: "ix dr (fringe s) \<noteq> []" using 3(1) by (auto simp: ix_def)
  have d1: "dists s1 = dists s" using 3(6) by simp
  have none: "map_of (ix dr (dists s)) v = None" using 3(7) d1 by simp
  have s2: "unsettled G s2 = unsettled G s - {(dr, v)}"
    using unsettled_settle[OF none drv, of G dv] 3(6,8) by (simp add: unsettled_def)
  have keep: "dists s3 = dists s2" using relax_keeps[OF 3(10)] by simp
  then have s3: "unsettled G s3 = unsettled G s - {(dr, v)}" using s2 by (simp add: unsettled_def)
  show ?case
  proof (cases "v \<in> set (g_nodes G)")
    case True
    then have "(dr, v) \<in> unsettled G s"
      using none drv by (auto simp: unsettled_def ix_def map_of_eq_None_iff)
    then have "card (unsettled G s3) < card (unsettled G s)"
      unfolding s3 by (rule card_Diff1_less[OF finite_unsettled])
    then show ?thesis by simp
  next
    case False
    then have "(dr, v) \<notin> unsettled G s" by (auto simp: unsettled_def)
    then have same: "unsettled G s3 = unsettled G s" unfolding s3 by simp
    have "s3 = s2" using 3(10) neighs_outside[OF False] by simp
    then have "fringe_size s3 = fringe_size s1" using 3(8) by (simp add: fringe_size_def)
    moreover have "fringe_size s1 < fringe_size s"
      using heappop_length[OF ne] 3(3,6) by (auto simp: fringe_size_def ix_def ix_set_def)
    ultimately show ?thesis using same by simp
  qed
qed

declare bd_loop.simps [simp del]

text \<open>
  \<^verbatim>\<open>bidirectional_dijkstra(G, source, target, weight)\<close>: the checks before the loop
  and the initial state. \<open>finaldist\<close> has no value before the first path is found; the
  loop reads it only after testing \<^verbatim>\<open>finalpath == []\<close>.
\<close>

definition bidirectional_dijkstra ::
  "graph \<Rightarrow> node \<Rightarrow> node \<Rightarrow> (edge_data \<Rightarrow> pyfloat) \<Rightarrow> py_error + (pyfloat \<times> node list)" where
  "bidirectional_dijkstra G source target weight =
    (if \<not> has_node G source then Inl NodeNotFound
     else if \<not> has_node G target then Inl NodeNotFound
     else if source = target then Inr (Fin 0, [source])
     else bd_loop G weight
            \<lparr>dists = ([], []),
             paths = ([(source, [source])], [(target, [target])]),
             fringe = (heappush [] (Fin 0, 0, source), heappush [] (Fin 0, 1, target)),
             seen = ([(source, Fin 0)], [(target, Fin 0)]),
             c = 2,
             finaldist = PInf,
             finalpath = [],
             dir = 1\<rparr>)"

text \<open>\<^verbatim>\<open>_, paths = nx.bidirectional_dijkstra(G, source, target, weight)\<close>\<close>

definition nx_shortest_path ::
  "graph \<Rightarrow> node \<Rightarrow> node \<Rightarrow> (edge_data \<Rightarrow> pyfloat) \<Rightarrow> py_error + node list" where
  "nx_shortest_path G source target weight =
    (case bidirectional_dijkstra G source target weight of
       Inl e \<Rightarrow> Inl e
     | Inr (d, path) \<Rightarrow> Inr path)"

section \<open>The danger-aware pathfinder\<close>

text \<open>
  The weight that \<^verbatim>\<open>find_danger_aware_shortest_path\<close> stores as
  \<^verbatim>\<open>adjusted_weight\<close> on every edge of its copy of the graph.
\<close>

definition adjusted_weight :: "int \<Rightarrow> edge_data \<Rightarrow> pyfloat" where
  "adjusted_weight rain_intensity data =
    (let rain_params = rain_intensity_effects rain_intensity;
         edge_weight = (case length_attr data of Some l \<Rightarrow> l | None \<Rightarrow> 1.0);
         penalty_factor = Fin 1.0;
         penalty_factor =
           (if currently_flooded data
            then (if rain_intensity \<ge> 5 then PInf else pf_mul penalty_factor (Fin 5.0))
            else penalty_factor);
         penalty_factor =
           (if currently_landslide data
            then (if rain_intensity \<ge> 4 then PInf else pf_mul penalty_factor (Fin 10.0))
            else penalty_factor);
         penalty_factor = pf_div penalty_factor (max 0.1 (speed_multiplier rain_params))
     in pf_mul (Fin edge_weight) penalty_factor)"

text \<open>
  The loop that adds up the original lengths along the path. \<open>None\<close> is its early
  \<^verbatim>\<open>return None, float('inf')\<close> for a pair of consecutive nodes without an edge.
\<close>

fun path_length_loop :: "graph \<Rightarrow> node list \<Rightarrow> real \<Rightarrow> real option" where
  "path_length_loop G (u # v # rest) path_length =
    (case get_edge_data G u v of
       None \<Rightarrow> None
     | Some edge_data \<Rightarrow>
         path_length_loop G (v # rest)
           (path_length + (case length_attr edge_data of Some l \<Rightarrow> l | None \<Rightarrow> 1)))"
| "path_length_loop G [u] path_length = Some path_length"
| "path_length_loop G [] path_length = Some path_length"

text \<open>
  The copy \<^verbatim>\<open>G_temp\<close> has the nodes and edges of the graph. The
  \<^verbatim>\<open>except\<close> clause catches \<^verbatim>\<open>NetworkXNoPath\<close> and \<^verbatim>\<open>NodeNotFound\<close>; any other
  exception leaves the function.
\<close>

definition find_danger_aware_shortest_path ::
  "graph \<Rightarrow> node \<Rightarrow> node \<Rightarrow> int \<Rightarrow> py_error + (node list option \<times> pyfloat)" where
  "find_danger_aware_shortest_path G source_id target_id rain_intensity =
    (if \<not> has_node G source_id \<or> \<not> has_node G target_id then Inr (None, PInf)
     else
       (case nx_shortest_path G source_id target_id (adjusted_weight rain_intensity) of
          Inl NetworkXNoPath \<Rightarrow> Inr (None, PInf)
        | Inl NodeNotFound \<Rightarrow> Inr (None, PInf)
        | Inl e \<Rightarrow> Inl e
        | Inr path \<Rightarrow>
            (case path_length_loop G path 0 of
               None \<Rightarrow> Inr (None, PInf)
             | Some path_length \<Rightarrow> Inr (Some path, Fin path_length))))"

section \<open>The nearest-neighbour router\<close>

text \<open>
  The inner loop \<^verbatim>\<open>for node in unvisited\<close>. Its three variables
  \<^verbatim>\<open>next_node\<close>, \<^verbatim>\<open>shortest_distance\<close> and \<^verbatim>\<open>shortest_path\<close> are assigned
  together, so they are one optional triple here: \<open>None\<close> stands for
  \<^verbatim>\<open>(None, float('inf'), None)\<close>. A path is truthy when it is a non-empty list.
  The set \<^verbatim>\<open>unvisited\<close> is a list without duplicates, iterated in list order; the
  order in which Python iterates over a set is not specified.
\<close>

fun nearest_scan ::
  "graph \<Rightarrow> node \<Rightarrow> int \<Rightarrow> node list \<Rightarrow> (node \<times> pyfloat \<times> node list) option
     \<Rightarrow> py_error + (node \<times> pyfloat \<times> node list) option" where
  "nearest_scan G current_node rain_intensity [] best = Inr best"
| "nearest_scan G current_node rain_intensity (node # rest) best =
    (case find_danger_aware_shortest_path G current_node node rain_intensity of
       Inl e \<Rightarrow> Inl e
     | Inr (path, distance) \<Rightarrow>
         (let shortest_distance = (case best of None \<Rightarrow> PInf | Some (n, d, p) \<Rightarrow> d)
          in case path of
               None \<Rightarrow> nearest_scan G current_node rain_intensity rest best
             | Some p \<Rightarrow>
                 if p \<noteq> [] \<and> pf_lt distance shortest_distance
                 then nearest_scan G current_node rain_intensity rest (Some (node, distance, p))
                 else nearest_scan G current_node rain_intensity rest best))"

text \<open>
  The outer loop \<^verbatim>\<open>while unvisited\<close>. The test \<^verbatim>\<open>if next_node\<close> is Python's
  truth test: it fails for \<^verbatim>\<open>None\<close> and for the node id 0.
  \<^verbatim>\<open>unvisited.remove\<close> raises \<^verbatim>\<open>KeyError\<close> for a node that is not in the set.
  \<open>None\<close> is the failure \<^verbatim>\<open>return None, 0, None\<close>.
\<close>

function route_loop ::
  "graph \<Rightarrow> int \<Rightarrow> node list \<Rightarrow> node \<Rightarrow> node list \<Rightarrow> node list \<Rightarrow> pyfloat
     \<Rightarrow> py_error + (node list \<times> pyfloat \<times> node list) option" where
  "route_loop G rain_intensity unvisited current_node route path_sequence total_distance =
    (if unvisited = [] then Inr (Some (route, total_distance, path_sequence))
     else
       (case nearest_scan G current_node rain_intensity unvisited None of
          Inl e \<Rightarrow> Inl e
        | Inr None \<Rightarrow> Inr None
        | Inr (Some (next_node, shortest_distance, shortest_path)) \<Rightarrow>
            if next_node \<noteq> 0
            then
              (if next_node \<in> set unvisited
               then route_loop G rain_intensity (removeAll next_node unvisited) next_node
                      (route @ [next_node]) (path_sequence @ tl shortest_path)
                      (pf_add total_distance shortest_distance)
               else Inl KeyError)
            else Inr None))"
  by pat_completeness auto
termination
  by (relation "measure (\<lambda>(G, r, unvisited, rest). length unvisited)")
     (auto simp: length_removeAll_less)

declare route_loop.simps [simp del]

definition find_disaster_aware_route ::
  "graph \<Rightarrow> node \<Rightarrow> node list \<Rightarrow> int
     \<Rightarrow> py_error + (node list \<times> pyfloat \<times> node list) option" where
  "find_disaster_aware_route G start_node delivery_nodes rain_intensity =
    route_loop G rain_intensity (remdups delivery_nodes) start_node
      [start_node] [start_node] (Fin 0)"

section \<open>Movement along the path\<close>

definition is_edge_blocked :: "edge_data \<Rightarrow> int \<Rightarrow> bool" where
  "is_edge_blocked edge_data rain_intensity =
    (if currently_flooded edge_data \<and> rain_intensity \<ge> 5 then True
     else if currently_landslide edge_data \<and> rain_intensity \<ge> 4 then True
     else False)"

text \<open>
  The tuple \<^verbatim>\<open>simulate_movement\<close> returns, and the variables of its loop. The two
  sets of delivery nodes are lists without duplicates.
\<close>

record movement_result =
  success :: bool
  distance :: real
  time :: real
  deliveries_made :: nat
  encounters :: "nat \<times> nat"
  reason :: string

record movement_state =
  total_distance :: real
  total_time :: real
  disaster_encounters :: "nat \<times> nat"
  visited_delivery_nodes :: "node list"
  remaining_delivery_nodes :: "node list"

definition movement_failed :: "movement_state \<Rightarrow> string \<Rightarrow> movement_result" where
  "movement_failed st why =
    \<lparr>success = False, distance = total_distance st, time = total_time st,
     deliveries_made = length (visited_delivery_nodes st),
     encounters = disaster_encounters st, reason = why\<rparr>"

definition movement_done :: "movement_state \<Rightarrow> movement_result" where
  "movement_done st =
    (let ok = (length (remaining_delivery_nodes st) = 0)
     in \<lparr>success = ok, distance = total_distance st, time = total_time st,
         deliveries_made = length (visited_delivery_nodes st),
         encounters = disaster_encounters st,
         reason = (if ok then ''All deliveries completed'' else ''Some deliveries missed'')\<rparr>)"

text \<open>
  The loop \<^verbatim>\<open>while current_path_idx < len(path_sequence) - 1\<close>, on the part of the
  path from the current index on.
\<close>

fun movement_loop ::
  "graph \<Rightarrow> real \<Rightarrow> int \<Rightarrow> node list \<Rightarrow> node list \<Rightarrow> movement_state \<Rightarrow> movement_result" where
  "movement_loop G base_speed rain_intensity delivery_nodes_set (u # v # rest) st =
    (case get_edge_data G u v of
       None \<Rightarrow> movement_failed st ''Edge no longer exists''
     | Some edge_data \<Rightarrow>
         if is_edge_blocked edge_data rain_intensity
         then movement_failed st ''Encountered blocked road''
         else
           (let st1 = st\<lparr>disaster_encounters :=
                        (fst (disaster_encounters st) + (if currently_flooded edge_data then 1 else 0),
                         snd (disaster_encounters st) + (if currently_landslide edge_data then 1 else 0))\<rparr>;
                adjusted_speed = base_speed * speed_multiplier (rain_intensity_effects rain_intensity);
                adjusted_speed = (if currently_flooded edge_data then adjusted_speed * 0.5 else adjusted_speed);
                adjusted_speed = (if currently_landslide edge_data then adjusted_speed * 0.3 else adjusted_speed)
            in if adjusted_speed \<le> 0 then movement_failed st1 ''Speed dropped to zero''
               else
                 (let edge_length = (case length_attr edge_data of Some l \<Rightarrow> l | None \<Rightarrow> 0);
                      travel_time = edge_length / adjusted_speed;
                      st2 = st1\<lparr>total_distance := total_distance st1 + edge_length,
                                total_time := total_time st1 + travel_time\<rparr>;
                      st3 = (if v \<in> set delivery_nodes_set
                             then st2\<lparr>visited_delivery_nodes :=
                                        (if v \<in> set (visited_delivery_nodes st2)
                                         then visited_delivery_nodes st2
                                         else visited_delivery_nodes st2 @ [v]),
                                      remaining_delivery_nodes :=
                                        removeAll v (remaining_delivery_nodes st2)\<rparr>
                             else st2)
                  in movement_loop G base_speed rain_intensity delivery_nodes_set (v # rest) st3)))"
| "movement_loop G base_speed rain_intensity delivery_nodes_set [u] st = movement_done st"
| "movement_loop G base_speed rain_intensity delivery_nodes_set [] st = movement_done st"

definition simulate_movement ::
  "graph \<Rightarrow> node list \<Rightarrow> real \<Rightarrow> node list \<Rightarrow> node list \<Rightarrow> int \<Rightarrow> movement_result" where
  "simulate_movement G delivery_nodes base_speed route path_sequence rain_intensity =
    movement_loop G base_speed rain_intensity (remdups (tl route)) path_sequence
      \<lparr>total_distance = 0, total_time = 0, disaster_encounters = (0, 0),
       visited_delivery_nodes = [], remaining_delivery_nodes = remdups delivery_nodes\<rparr>"

section \<open>One trial\<close>

text \<open>
  A trial result is a Python dictionary: a list of keys with their values, in insertion
  order. Distances and times are numbers, counts are integers.
\<close>

datatype pyval = PBool bool | PInt int | PNum real | PStr string | PDict "(string \<times> pyval) list"

type_synonym pydict = "(string \<times> pyval) list"

fun dict_set :: "pydict \<Rightarrow> string \<Rightarrow> pyval \<Rightarrow> pydict" where
  "dict_set [] k v = [(k, v)]"
| "dict_set ((k', v') # kvs) k v = (if k' = k then (k, v) # kvs else (k', v') # dict_set kvs k v)"

definition counts_dict :: "nat \<times> nat \<Rightarrow> pyval" where
  "counts_dict cnt = PDict [(''floods'', PInt (int (fst cnt))), (''landslides'', PInt (int (snd cnt)))]"

definition simulate_delivery ::
  "graph \<Rightarrow> node \<Rightarrow> node list \<Rightarrow> real \<Rightarrow> int \<Rightarrow> py_error + pydict" where
  "simulate_delivery G start_node delivery_nodes base_speed rain_intensity =
    (case find_disaster_aware_route G start_node delivery_nodes rain_intensity of
       Inl e \<Rightarrow> Inl e
     | Inr None \<Rightarrow>
         Inr [(''success'', PBool False), (''distance'', PNum 0), (''time'', PNum 0),
              (''reroutes'', PInt 0), (''disaster_encounters'', PDict []),
              (''reason'', PStr ''No valid route found initially'')]
     | Inr (Some (route, route_distance, path_sequence)) \<Rightarrow>
         if route = []
         then
           Inr [(''success'', PBool False), (''distance'', PNum 0), (''time'', PNum 0),
                (''reroutes'', PInt 0), (''disaster_encounters'', PDict []),
                (''reason'', PStr ''No valid route found initially'')]
         else
           (let res = simulate_movement G delivery_nodes base_speed route path_sequence rain_intensity
            in Inr [(''reroutes'', PInt 0), (''success'', PBool (success res)),
                    (''distance'', PNum (distance res)), (''time'', PNum (time res)),
                    (''deliveries_made'', PInt (int (deliveries_made res))),
                    (''disaster_encounters'', counts_dict (encounters res)),
                    (''reason'', PStr (reason res))]))"

section \<open>The orchestrator and the worker process\<close>

text \<open>A dictionary indexed with a key it does not have raises \<^verbatim>\<open>KeyError\<close>.\<close>

definition get_rainfall_probability_by_condition :: "int \<Rightarrow> py_error + real list" where
  "get_rainfall_probability_by_condition weather_severity =
    (case map_of
            [(1, [0.92, 0.06, 0.015, 0.004, 0.001]),
             (2, [0.55, 0.25, 0.12, 0.06, 0.02]),
             (3, [0.25, 0.25, 0.25, 0.15, 0.10]),
             (4, [0.05, 0.10, 0.20, 0.30, 0.35]),
             (5, [0.005, 0.02, 0.075, 0.35, 0.55])] weather_severity of
       None \<Rightarrow> Inl KeyError
     | Some p \<Rightarrow> Inr p)"

text \<open>
  The fields of a \<^verbatim>\<open>MonteCarloSimulation\<close> object; \<open>self_all_runs\<close> is
  \<^verbatim>\<open>self.simulation_results['all_runs']\<close>. The constructor only stores its arguments.
\<close>

record simulation =
  self_base_speed :: real
  self_num_delivery_points :: int
  self_G :: graph
  self_completed_simulations :: nat
  self_start_node :: node
  self_delivery_nodes :: "node list"
  self_ideal_delivery_time :: real
  self_weather_severity :: "int option"
  self_all_runs :: "pydict list"
  self_worker_name :: string

definition MonteCarloSimulation :: "graph \<Rightarrow> node \<Rightarrow> node list \<Rightarrow> real \<Rightarrow> string \<Rightarrow> simulation" where
  "MonteCarloSimulation G start_node delivery_nodes ideal_delivery_time worker_name =
    \<lparr>self_base_speed = 500, self_num_delivery_points = 7, self_G = G,
     self_completed_simulations = 0, self_start_node = start_node,
     self_delivery_nodes = delivery_nodes, self_ideal_delivery_time = ideal_delivery_time,
     self_weather_severity = None, self_all_runs = [], self_worker_name = worker_name\<rparr>"

text \<open>
  The loop of \<^verbatim>\<open>run_simulation\<close>, for the trials \<open>i\<close>, \<open>i + 1\<close>, ... that are left.
  The level that \<^verbatim>\<open>np.random.choice\<close> draws for trial \<open>i\<close> is an input of the model,
  \<open>rain i\<close>, as the values of \<^verbatim>\<open>random.random()\<close> are. The worker object shares the
  graph of the simulation object, so the flags written by one trial are the graph of the
  next. An exception ends the loop and leaves the object as it is at that moment.
\<close>

fun trial_loop ::
  "(nat \<Rightarrow> int) \<Rightarrow> (nat \<Rightarrow> real) \<Rightarrow> int \<Rightarrow> nat \<Rightarrow> nat \<Rightarrow> nat \<Rightarrow> simulation
     \<Rightarrow> simulation \<times> py_error option" where
  "trial_loop rain rnd weather_severity 0 i k sim = (sim, None)"
| "trial_loop rain rnd weather_severity (Suc n) i k sim =
    (case get_rainfall_probability_by_condition weather_severity of
       Inl e \<Rightarrow> (sim, Some e)
     | Inr p \<Rightarrow>
        (let rain_intensity = rain i;
             (G', activated_disasters, k') = activate_disasters (self_G sim) rain_intensity rnd k;
             sim1 = sim\<lparr>self_G := G'\<rparr>
         in case simulate_delivery G' (self_start_node sim) (self_delivery_nodes sim)
                   (self_base_speed sim) rain_intensity of
              Inl e \<Rightarrow> (sim1, Some e)
            | Inr result \<Rightarrow>
                (let result1 = dict_set result ''rain_intensity'' (PInt rain_intensity);
                     result2 = dict_set result1 ''activated_disasters'' (counts_dict activated_disasters);
                     sim2 = sim1\<lparr>self_all_runs := self_all_runs sim1 @ [result2],
                                 self_completed_simulations := i + 1\<rparr>
                 in trial_loop rain rnd weather_severity n (i + 1) k' sim2)))"

text \<open>
  \<^verbatim>\<open>run_simulation\<close>: the loop \<^verbatim>\<open>for i in range(num_simulations)\<close>, then the
  summary, whose success rate divides by the number of stored runs.
\<close>

definition run_simulation ::
  "simulation \<Rightarrow> int \<Rightarrow> int \<Rightarrow> (nat \<Rightarrow> int) \<Rightarrow> (nat \<Rightarrow> real) \<Rightarrow> simulation \<times> py_error option" where
  "run_simulation sim num_simulations weather_severity rain rnd =
    (case trial_loop rain rnd weather_severity (nat num_simulations) 0 0
            (sim\<lparr>self_weather_severity := Some weather_severity\<rparr>) of
       (sim', Some e) \<Rightarrow> (sim', Some e)
     | (sim', None) \<Rightarrow>
         if length (self_all_runs sim') = 0 then (sim', Some ZeroDivisionError)
         else (sim', None))"

text \<open>
  \<^verbatim>\<open>process_worker\<close>, as the list of the messages it puts on \<^verbatim>\<open>main_queue\<close>, in
  order; \<open>None\<close> is the failure marker. The \<^verbatim>\<open>except\<close> branch puts the marker and
  prints; the statement after the \<^verbatim>\<open>try\<close> block, \<^verbatim>\<open>main_queue.put(simulation)\<close>,
  runs on both ways out of the block.
\<close>

definition process_worker ::
  "graph \<Rightarrow> node \<Rightarrow> node list \<Rightarrow> real \<Rightarrow> int \<Rightarrow> int \<Rightarrow> string \<Rightarrow> (nat \<Rightarrow> int) \<Rightarrow> (nat \<Rightarrow> real)
     \<Rightarrow> simulation option list" where
  "process_worker G start_node delivery_nodes ideal_delivery_time weather_severity
      num_simulations worker_name rain rnd =
    (let simulation = MonteCarloSimulation G start_node delivery_nodes ideal_delivery_time worker_name
     in case run_simulation simulation num_simulations weather_severity rain rnd of
          (simulation', Some e) \<Rightarrow> [None] @ [Some simulation']
        | (simulation', None) \<Rightarrow> [Some simulation'])"

section \<open>Vocabulary of the properties\<close>

text \<open>
  What \<^verbatim>\<open>activate_disasters\<close> must leave alone: the nodes, and of every edge its
  endpoints, length and proneness values. What it must write: the pair of flags of every
  edge, from the two random values drawn for that edge.
\<close>

definition static_edges :: "edge list \<Rightarrow> ((node \<times> node) \<times> real option \<times> real \<times> real) list" where
  "static_edges es = map (\<lambda>(uv, d). (uv, length_attr d, flood_prone d, landslide_prone d)) es"

definition static_part ::
  "graph \<Rightarrow> node list \<times> ((node \<times> node) \<times> real option \<times> real \<times> real) list" where
  "static_part G = (nodes_list G, static_edges (edges_list G))"

definition flags_of :: "edge list \<Rightarrow> (bool \<times> bool) list" where
  "flags_of es = map (\<lambda>(uv, d). (currently_flooded d, currently_landslide d)) es"

definition fresh_flags ::
  "real \<Rightarrow> real \<Rightarrow> (nat \<Rightarrow> real) \<Rightarrow> nat \<Rightarrow> edge list \<Rightarrow> (bool \<times> bool) list" where
  "fresh_flags ft lt rnd k es =
     map (\<lambda>(j, (uv, d)). (rnd (k + 2 * j) < flood_prone d * ft,
                            rnd (k + 2 * j + 1) < landslide_prone d * lt)) (enumerate 0 es)"

text \<open>
  The original length of an edge as the pathfinder adds it up: the \<^verbatim>\<open>length\<close>
  attribute, or 1 for an edge without one.
\<close>

definition edge_length :: "graph \<Rightarrow> node \<times> node \<Rightarrow> real" where
  "edge_length G uv =
    (case get_edge_data G (fst uv) (snd uv) of
       Some d \<Rightarrow> (case length_attr d of Some l \<Rightarrow> l | None \<Rightarrow> 1)
     | None \<Rightarrow> 0)"

text \<open>
  \<^verbatim>\<open>simulate_movement\<close> has walked the whole path when its reason is one of the two it
  gives after the loop; the three reasons of its early returns are different strings.
\<close>

definition completed :: "movement_result \<Rightarrow> bool" where
  "completed res =
     (reason res = ''All deliveries completed'' \<or> reason res = ''Some deliveries missed'')"

text \<open>
  The two records that \<^verbatim>\<open>simulate_delivery\<close> returns without walking an edge: the one
  of its early return when the router found no route, and the one of a trial with nothing
  to deliver.
\<close>

definition no_route_result :: pydict where
  "no_route_result =
     [(''success'', PBool False), (''distance'', PNum 0), (''time'', PNum 0),
      (''reroutes'', PInt 0), (''disaster_encounters'', PDict []),
      (''reason'', PStr ''No valid route found initially'')]"

definition no_deliveries_result :: pydict where
  "no_deliveries_result =
     [(''reroutes'', PInt 0), (''success'', PBool True), (''distance'', PNum 0),
      (''time'', PNum 0), (''deliveries_made'', PInt 0),
      (''disaster_encounters'', PDict [(''floods'', PInt 0), (''landslides'', PInt 0)]),
      (''reason'', PStr ''All deliveries completed'')]"

text \<open>
  Concrete inputs: random sources that always give the same value, and the graph of two
  nodes 1 and 2 joined by one edge of length 1000 from 1 to 2, with a given flood
  proneness and flood flag, not prone to landslides.
\<close>

definition constant_draws :: "real \<Rightarrow> nat \<Rightarrow> real" where
  "constant_draws x k = x"

definition constant_rain :: "int \<Rightarrow> nat \<Rightarrow> int" where
  "constant_rain r i = r"

definition two_node_graph :: "real \<Rightarrow> bool \<Rightarrow> graph" where
  "two_node_graph fp flooded =
    \<lparr>nodes_list = [1, 2],
     edges_list = [((1, 2), \<lparr>length_attr = Some 1000, flood_prone = fp, landslide_prone = 0,
                             currently_flooded = flooded, currently_landslide = False\<rparr>)]\<rparr>"

text \<open>Two nodes 1 and 2 and no edge.\<close>

definition two_nodes_no_edge :: graph where
  "two_nodes_no_edge = \<lparr>nodes_list = [1, 2], edges_list = []\<rparr>"

text \<open>
  Three nodes: the edge from 1 to 2 of length 1000 with a given flood flag, and a dry
  detour from 1 over 3 to 2 of lengths 800 and 900.
\<close>

definition detour_graph :: "bool \<Rightarrow> graph" where
  "detour_graph flooded =
    \<lparr>nodes_list = [1, 2, 3],
     edges_list =
       [((1, 2), \<lparr>length_attr = Some 1000, flood_prone = 1, landslide_prone = 0,
                  currently_flooded = flooded, currently_landslide = False\<rparr>),
        ((1, 3), \<lparr>length_attr = Some 800, flood_prone = 0, landslide_prone = 0,
                  currently_flooded = False, currently_landslide = False\<rparr>),
        ((3, 2), \<lparr>length_attr = Some 900, flood_prone = 0, landslide_prone = 0,
                  currently_flooded = False, currently_landslide = False\<rparr>)]\<rparr>"

section \<open>Disaster activation: properties\<close>

lemma fst_activate_loop_Cons:
  "fst (activate_loop ft lt rnd k ((uv, d) # es) (fl, ls)) =
     (uv, d\<lparr>currently_flooded := (rnd k < flood_prone d * ft),
             currently_landslide := (rnd (k + 1) < landslide_prone d * lt)\<rparr>)
     # fst (activate_loop ft lt rnd (k + 2) es
              (if rnd k < flood_prone d * ft then fl + 1 else fl,
               if rnd (k + 1) < landslide_prone d * lt then ls + 1 else ls))"
  by (simp only: activate_loop.simps Let_def split: prod.splits) simp

lemma activate_loop_flags:
  "flags_of (fst (activate_loop ft lt rnd k es acc)) = fresh_flags ft lt rnd k es"
proof (induction es arbitrary: k acc)
  case Nil
  show ?case by (simp add: flags_of_def fresh_flags_def)
next
  case (Cons e es)
  obtain uv d where e: "e = (uv, d)" by (cases e)
  obtain fl ls where acc: "acc = (fl, ls)" by (cases acc)
  have shift: "fresh_flags ft lt rnd k ((uv, d) # es) =
      (rnd k < flood_prone d * ft, rnd (k + 1) < landslide_prone d * lt)
        # fresh_flags ft lt rnd (k + 2) es"
    by (simp add: fresh_flags_def enumerate_Suc_eq comp_def split_def add.assoc)
  show ?case
    unfolding e acc fst_activate_loop_Cons shift
    using Cons.IH[of "k + 2"] by (simp add: flags_of_def)
qed

lemma activate_loop_static:
  "static_edges (fst (activate_loop ft lt rnd k es acc)) = static_edges es"
proof (induction es arbitrary: k acc)
  case Nil
  show ?case by simp
next
  case (Cons e es)
  obtain uv d where e: "e = (uv, d)" by (cases e)
  obtain fl ls where acc: "acc = (fl, ls)" by (cases acc)
  have "static_edges (fst (activate_loop ft lt rnd k ((uv, d) # es) (fl, ls)))
          = static_edges ((uv, d) # es)"
    unfolding fst_activate_loop_Cons
    using Cons.IH by (simp add: static_edges_def)
  then show ?case by (simp only: e acc)
qed

lemma activate_loop_prior_flags:
  "static_edges es2 = static_edges es \<Longrightarrow>
   activate_loop ft lt rnd k es2 acc = activate_loop ft lt rnd k es acc"
proof (induction es arbitrary: k acc es2)
  case Nil
  then show ?case by (simp add: static_edges_def)
next
  case (Cons e es)
  then obtain e2 es2' where es2: "es2 = e2 # es2'" by (cases es2) (auto simp: static_edges_def)
  obtain uv d where e: "e = (uv, d)" by (cases e)
  obtain uv2 d2 where e2: "e2 = (uv2, d2)" by (cases e2)
  from Cons.prems es2 e e2 have eq: "uv2 = uv" "length_attr d2 = length_attr d"
     "flood_prone d2 = flood_prone d" "landslide_prone d2 = landslide_prone d"
     "static_edges es2' = static_edges es"
    by (auto simp: static_edges_def)
  obtain fl ls where acc: "acc = (fl, ls)" by (cases acc)
  have d: "d2\<lparr>currently_flooded := a, currently_landslide := b\<rparr>
            = d\<lparr>currently_flooded := a, currently_landslide := b\<rparr>" for a b
    using eq by (cases d, cases d2) simp
  show ?case
    unfolding es2 e e2 acc using eq Cons.IH[OF eq(5)] by (simp add: Let_def d split: prod.splits)
qed

lemma activate_disasters_alt:
  "activate_disasters G r rnd k =
     (G\<lparr>edges_list := fst (activate_loop (fst (disaster_thresholds r)) (snd (disaster_thresholds r))
                            rnd k (edges_list G) (0, 0))\<rparr>,
      snd (activate_loop (fst (disaster_thresholds r)) (snd (disaster_thresholds r))
                            rnd k (edges_list G) (0, 0)),
      k + 2 * length (edges_list G))"
  by (simp add: activate_disasters_def split: prod.splits)

text \<open>
  Claim C9. A call of \<^verbatim>\<open>activate_disasters\<close> leaves the nodes and the endpoints,
  length and proneness values of every edge as they were; it gives both flags of every
  edge the value decided by the random values drawn for that edge in this call; and two
  graphs that differ only in the flags left by earlier trials give the same graph and the
  same counts. So no flag of an earlier trial survives the call.
\<close>

theorem activate_disasters_rewrites_all_flags:
  "static_part (fst (activate_disasters G r rnd k)) = static_part G \<and>
   flags_of (edges_list (fst (activate_disasters G r rnd k)))
     = fresh_flags (fst (disaster_thresholds r)) (snd (disaster_thresholds r)) rnd k (edges_list G) \<and>
   (static_part G2 = static_part G \<longrightarrow>
      activate_disasters G2 r rnd k = activate_disasters G r rnd k)"
proof (intro conjI impI)
  show "static_part (fst (activate_disasters G r rnd k)) = static_part G"
    by (simp add: activate_disasters_alt static_part_def activate_loop_static)
  show "flags_of (edges_list (fst (activate_disasters G r rnd k)))
     = fresh_flags (fst (disaster_thresholds r)) (snd (disaster_thresholds r)) rnd k (edges_list G)"
    by (simp add: activate_disasters_alt activate_loop_flags)
next
  assume same: "static_part G2 = static_part G"
  then have n: "nodes_list G2 = nodes_list G"
    and e: "static_edges (edges_list G2) = static_edges (edges_list G)"
    by (simp_all add: static_part_def)
  have len: "length (edges_list G2) = length (edges_list G)"
    using e unfolding static_edges_def by (rule map_eq_imp_length_eq)
  have g: "G2\<lparr>edges_list := es\<rparr> = G\<lparr>edges_list := es\<rparr>" for es
    using n by (cases G, cases G2) simp
  show "activate_disasters G2 r rnd k = activate_disasters G r rnd k"
    unfolding activate_disasters_alt activate_loop_prior_flags[OF e] len g ..
qed

theorem activate_disasters_rewrites_all_flags_witness:
  "static_part (two_node_graph 1 True) = static_part (two_node_graph 1 False) \<and>
   activate_disasters (two_node_graph 1 True) 3 (constant_draws 0.7) 0
     = activate_disasters (two_node_graph 1 False) 3 (constant_draws 0.7) 0 \<and>
   flags_of (edges_list (fst (activate_disasters (two_node_graph 1 True) 3 (constant_draws 0.7) 0)))
     = [(False, False)]"
proof -
  have h: "static_part (two_node_graph 1 True) = static_part (two_node_graph 1 False)"
    by (simp add: static_part_def static_edges_def two_node_graph_def)
  have f: "fresh_flags (fst (disaster_thresholds 3)) (snd (disaster_thresholds 3))
             (constant_draws 0.7) 0 (edges_list (two_node_graph 1 False)) = [(False, False)]"
    by (simp add: fresh_flags_def disaster_thresholds_def rain_intensity_effects_def
        rain_effects_def constant_draws_def two_node_graph_def)
  from activate_disasters_rewrites_all_flags
         [of "two_node_graph 1 False" 3 "constant_draws 0.7" 0 "two_node_graph 1 True"] h f
  show ?thesis by simp
qed

text \<open>
  Claim C6, as stated, fails: the scaling of the thresholds tests the rain intensity that
  was passed, not the level the lookup fell back to. At intensity 6 the flood threshold is
  0.12, and an edge of proneness 1 floods on the random value 0.11; at intensity 1 the
  threshold is 0.10 and it stays dry.
\<close>

theorem invalid_rain_intensity_counterexample:
  "(6::int) \<notin> {1, 2, 3, 4, 5} \<and>
   fst (activate_disasters (two_node_graph 1 False) 6 (constant_draws 0.11) 0)
     \<noteq> fst (activate_disasters (two_node_graph 1 False) 1 (constant_draws 0.11) 0)"
  by (simp add: activate_disasters_def disaster_thresholds_def rain_intensity_effects_def
      rain_effects_def constant_draws_def two_node_graph_def)

text \<open>
  Claim C6, amended. For a rain intensity outside 1..5 the lookup returns the level-1
  parameters and nothing raises. Below 1, \<^verbatim>\<open>activate_disasters\<close> does exactly what it
  does at intensity 1. Above 5 it uses the level-1 activations with the storm scaling:
  flood threshold 0.10 * 1.2 = 0.12, landslide threshold 0.
\<close>

theorem invalid_rain_intensity_falls_back:
  "r \<notin> {1, 2, 3, 4, 5} \<Longrightarrow>
   rain_intensity_effects r = rain_intensity_effects 1 \<and>
   (r < 1 \<longrightarrow> activate_disasters G r rnd k = activate_disasters G 1 rnd k) \<and>
   (5 < r \<longrightarrow> disaster_thresholds r = (0.12, 0))"
  by (simp add: activate_disasters_def disaster_thresholds_def rain_intensity_effects_def
      rain_effects_def)

theorem invalid_rain_intensity_falls_back_witness:
  "(0::int) \<notin> {1, 2, 3, 4, 5} \<and> (7::int) \<notin> {1, 2, 3, 4, 5} \<and>
   activate_disasters (two_node_graph 1 False) 0 (constant_draws 0.11) 0
     = activate_disasters (two_node_graph 1 False) 1 (constant_draws 0.11) 0 \<and>
   disaster_thresholds 7 = (0.12, 0)"
  using invalid_rain_intensity_falls_back [of 0 "two_node_graph 1 False" "constant_draws 0.11" 0]
        invalid_rain_intensity_falls_back [of 7 "two_node_graph 1 False" "constant_draws 0.11" 0]
  by simp

section \<open>The pathfinder: properties\<close>

text \<open>
  Claim C10. For a node of the graph, the pathfinder from the node to itself returns the
  path of that single node with length 0, at every rain intensity: the library returns
  before it searches, and the loop over the edges of the path has nothing to add.
\<close>

theorem same_source_and_target:
  "has_node G s \<Longrightarrow> find_danger_aware_shortest_path G s s r = Inr (Some [s], Fin 0)"
  by (simp add: find_danger_aware_shortest_path_def nx_shortest_path_def
      bidirectional_dijkstra_def)

theorem same_source_and_target_witness:
  "has_node (two_node_graph 1 True) 2 \<and>
   find_danger_aware_shortest_path (two_node_graph 1 True) 2 2 5 = Inr (Some [2], Fin 0)"
proof -
  have h: "has_node (two_node_graph 1 True) 2"
    by (simp add: has_node_def g_nodes_def two_node_graph_def)
  from same_source_and_target [OF h, of 5] h show ?thesis by simp
qed

lemma path_length_loop_sum:
  "path_length_loop G path acc = Some tot \<Longrightarrow>
     tot = acc + sum_list (map (edge_length G) (zip path (tl path))) \<and>
     (\<forall>uv \<in> set (zip path (tl path)). has_edge G (fst uv) (snd uv))"
proof (induction G path acc arbitrary: tot rule: path_length_loop.induct)
  case (1 G u v rest path_length)
  then obtain d where d: "get_edge_data G u v = Some d"
    by (cases "get_edge_data G u v") auto
  let ?l = "case length_attr d of Some l \<Rightarrow> l | None \<Rightarrow> 1"
  from "1.prems" d have run: "path_length_loop G (v # rest) (path_length + ?l) = Some tot"
    by simp
  from "1.IH"[OF d run] have ih:
    "tot = path_length + ?l + sum_list (map (edge_length G) (zip (v # rest) rest))"
    "\<forall>uv \<in> set (zip (v # rest) rest). has_edge G (fst uv) (snd uv)"
    by simp_all
  have here: "edge_length G (u, v) = ?l" "has_edge G u v"
    using d by (simp_all add: edge_length_def has_edge_def)
  show ?case using ih here by simp
qed simp_all

text \<open>
  Claim C8. Whenever the pathfinder returns a path, every pair of consecutive nodes of the
  path is an edge of the graph and the returned length is the sum of the original lengths
  of these edges. The adjusted weights play no part in it: in the example, at level 3, the
  path found is the detour, its edges have the adjusted weights 800 / 0.6 and 900 / 0.6,
  and the length returned is 800 + 900.
\<close>

theorem returned_length_is_original_length:
  "find_danger_aware_shortest_path G s t r = Inr (Some path, len) \<Longrightarrow>
     len = Fin (sum_list (map (edge_length G) (zip path (tl path)))) \<and>
     (\<forall>uv \<in> set (zip path (tl path)). has_edge G (fst uv) (snd uv))"
proof -
  assume a: "find_danger_aware_shortest_path G s t r = Inr (Some path, len)"
  then obtain tot where t: "path_length_loop G path 0 = Some tot" and l: "len = Fin tot"
    by (auto simp: find_danger_aware_shortest_path_def
        split: if_splits sum.splits py_error.splits option.splits)
  from path_length_loop_sum[OF t] l show ?thesis by simp
qed

lemmas eval_pathfinder =
  find_danger_aware_shortest_path_def nx_shortest_path_def bidirectional_dijkstra_def
  bd_loop.simps two_node_graph_def has_node_def g_nodes_def heappush_def ix_def ix_set_def
  neighs_def adjusted_weight_def rain_intensity_effects_def rain_effects_def
  get_edge_data_def Let_def

theorem returned_length_is_original_length_witness:
  "find_danger_aware_shortest_path (detour_graph True) 1 2 3 = Inr (Some [1, 3, 2], Fin 1700) \<and>
   adjusted_weight 3 (the (get_edge_data (detour_graph True) 1 3)) = Fin (800 / 0.6) \<and>
   adjusted_weight 3 (the (get_edge_data (detour_graph True) 3 2)) = Fin (900 / 0.6) \<and>
   sum_list (map (edge_length (detour_graph True)) (zip [1, 3, 2] (tl [1, 3, 2]))) = 1700 \<and>
   has_edge (detour_graph True) 1 3 \<and> has_edge (detour_graph True) 3 2"
proof -
  have h: "find_danger_aware_shortest_path (detour_graph True) 1 2 3 = Inr (Some [1, 3, 2], Fin 1700)"
    by (simp add: eval_pathfinder detour_graph_def)
  have w: "adjusted_weight 3 (the (get_edge_data (detour_graph True) 1 3)) = Fin (800 / 0.6)"
          "adjusted_weight 3 (the (get_edge_data (detour_graph True) 3 2)) = Fin (900 / 0.6)"
    by (simp_all add: adjusted_weight_def rain_intensity_effects_def rain_effects_def
        get_edge_data_def detour_graph_def)
  from returned_length_is_original_length [OF h] h w show ?thesis by simp
qed

text \<open>
  Claim C1 does not hold of the code. In the graph of two nodes whose only edge is flooded,
  at rain intensity 5 the edge gets the adjusted weight \<^verbatim>\<open>inf\<close>, the library search
  still relaxes it and returns the path over it, and the pathfinder returns that path with
  the length 1000.
\<close>

theorem pathfinder_returns_flooded_edge_at_level_5:
  "currently_flooded (snd (hd (edges_list (two_node_graph 1 True)))) \<and>
   adjusted_weight 5 (snd (hd (edges_list (two_node_graph 1 True)))) = PInf \<and>
   find_danger_aware_shortest_path (two_node_graph 1 True) 1 2 5 = Inr (Some [1, 2], Fin 1000)"
  by (simp add: eval_pathfinder)


theorem pathfinder_returns_flooded_edge_at_level_5_witness:
  "has_node (two_node_graph 1 True) 1 \<and> has_node (two_node_graph 1 True) 2 \<and>
   get_edge_data (two_node_graph 1 True) 1 2
     = Some \<lparr>length_attr = Some 1000, flood_prone = 1, landslide_prone = 0,
              currently_flooded = True, currently_landslide = False\<rparr> \<and>
   (5::int) \<ge> 5 \<and>
   find_danger_aware_shortest_path (two_node_graph 1 True) 1 2 5 = Inr (Some [1, 2], Fin 1000)"
proof -
  have n: "has_node (two_node_graph 1 True) 1 \<and> has_node (two_node_graph 1 True) 2"
    by (simp add: has_node_def g_nodes_def two_node_graph_def)
  have e: "get_edge_data (two_node_graph 1 True) 1 2
     = Some \<lparr>length_attr = Some 1000, flood_prone = 1, landslide_prone = 0,
              currently_flooded = True, currently_landslide = False\<rparr>"
    by (simp add: get_edge_data_def two_node_graph_def)
  from pathfinder_returns_flooded_edge_at_level_5 n e show ?thesis by simp
qed

text \<open>
  The search on further inputs. With the detour the direct edge is taken while it is dry
  and avoided once it is flooded, at level 3 (penalty 5) and at level 5 (infinite weight):
  an infinite weight loses against any finite one. It is only when every way to the target
  has infinite weight that the path over the flooded edge comes back. Against the
  direction of the edges, and to a node that is not in the graph, there is no path.
\<close>

lemma pathfinder_examples:
  "find_danger_aware_shortest_path (detour_graph False) 1 2 5 = Inr (Some [1, 2], Fin 1000)"
  "find_danger_aware_shortest_path (detour_graph True) 1 2 3 = Inr (Some [1, 3, 2], Fin 1700)"
  "find_danger_aware_shortest_path (detour_graph True) 1 2 5 = Inr (Some [1, 3, 2], Fin 1700)"
  "find_danger_aware_shortest_path (detour_graph True) 2 1 5 = Inr (None, PInf)"
  "find_danger_aware_shortest_path (two_node_graph 1 True) 2 1 5 = Inr (None, PInf)"
  "find_danger_aware_shortest_path (two_node_graph 1 True) 1 9 5 = Inr (None, PInf)"
  by (simp_all add: eval_pathfinder detour_graph_def)

section \<open>Movement: properties\<close>

lemma failed_not_completed:
  "\<not> completed (movement_failed st ''Edge no longer exists'')"
  "\<not> completed (movement_failed st ''Encountered blocked road'')"
  "\<not> completed (movement_failed st ''Speed dropped to zero'')"
  by (simp_all add: completed_def movement_failed_def)

lemma movement_done_fields:
  "success (movement_done st) = (remaining_delivery_nodes st = [])"
  "deliveries_made (movement_done st) = length (visited_delivery_nodes st)"
  by (simp_all add: movement_done_def Let_def)

lemma movement_loop_completed:
  "completed (movement_loop G bs r dset path st) \<Longrightarrow> distinct (visited_delivery_nodes st) \<Longrightarrow>
     (success (movement_loop G bs r dset path st) \<longleftrightarrow>
        (\<forall>d \<in> set (remaining_delivery_nodes st). d \<in> set (tl path) \<and> d \<in> set dset)) \<and>
     deliveries_made (movement_loop G bs r dset path st) =
        card (set (visited_delivery_nodes st) \<union> (set (tl path) \<inter> set dset))"
proof (induction G bs r dset path st rule: movement_loop.induct)
  case (1 G bs r dset u v rest st)
  let ?res = "movement_loop G bs r dset (u # v # rest) st"
  from "1.prems"(1) obtain ed where ed: "get_edge_data G u v = Some ed"
    by (cases "get_edge_data G u v") (auto simp: failed_not_completed)
  from "1.prems"(1) ed have nb: "\<not> is_edge_blocked ed r"
    by (auto simp: failed_not_completed split: if_splits)
  define st1 where "st1 = st\<lparr>disaster_encounters :=
                        (fst (disaster_encounters st) + (if currently_flooded ed then 1 else 0),
                         snd (disaster_encounters st) + (if currently_landslide ed then 1 else 0))\<rparr>"
  define sp0 where "sp0 = bs * speed_multiplier (rain_intensity_effects r)"
  define sp1 where "sp1 = (if currently_flooded ed then sp0 * 0.5 else sp0)"
  define sp2 where "sp2 = (if currently_landslide ed then sp1 * 0.3 else sp1)"
  define el where "el = (case length_attr ed of Some l \<Rightarrow> l | None \<Rightarrow> 0)"
  define st2 where "st2 = st1\<lparr>total_distance := total_distance st1 + el,
                                total_time := total_time st1 + el / sp2\<rparr>"
  define st3 where "st3 = (if v \<in> set dset
                             then st2\<lparr>visited_delivery_nodes :=
                                        (if v \<in> set (visited_delivery_nodes st2)
                                         then visited_delivery_nodes st2
                                         else visited_delivery_nodes st2 @ [v]),
                                      remaining_delivery_nodes :=
                                        removeAll v (remaining_delivery_nodes st2)\<rparr>
                             else st2)"
  have unfold: "?res = (if sp2 \<le> 0 then movement_failed st1 ''Speed dropped to zero''
                        else movement_loop G bs r dset (v # rest) st3)"
    using ed nb by (simp add: Let_def st1_def sp0_def sp1_def sp2_def el_def st2_def st3_def)
  with "1.prems"(1) have pos: "\<not> sp2 \<le> 0" and eq: "?res = movement_loop G bs r dset (v # rest) st3"
    by (auto simp: failed_not_completed split: if_splits)
  have vis3: "set (visited_delivery_nodes st3) = set (visited_delivery_nodes st) \<union> ({v} \<inter> set dset)"
    and dist3: "distinct (visited_delivery_nodes st3)"
    and rem3: "set (remaining_delivery_nodes st3) = set (remaining_delivery_nodes st) - ({v} \<inter> set dset)"
    using "1.prems"(2) by (auto simp: st3_def st2_def st1_def)
  have c3: "completed (movement_loop G bs r dset (v # rest) st3)"
    using "1.prems"(1) eq by simp
  have ih: "(success (movement_loop G bs r dset (v # rest) st3) \<longleftrightarrow>
        (\<forall>d \<in> set (remaining_delivery_nodes st3). d \<in> set (tl (v # rest)) \<and> d \<in> set dset)) \<and>
     deliveries_made (movement_loop G bs r dset (v # rest) st3) =
        card (set (visited_delivery_nodes st3) \<union> (set (tl (v # rest)) \<inter> set dset))"
    using "1.IH"[OF ed nb st1_def sp0_def sp1_def sp2_def pos el_def _ st2_def st3_def c3 dist3]
    by simp
  have sets: "set (visited_delivery_nodes st3) \<union> (set rest \<inter> set dset)
                = set (visited_delivery_nodes st) \<union> (set (v # rest) \<inter> set dset)"
    unfolding vis3 by auto
  show ?case
    unfolding eq using ih rem3 sets by auto
next
  case (2 G bs r dset u st)
  then show ?case by (simp add: movement_done_fields distinct_card)
next
  case (3 G bs r dset st)
  then show ?case by (simp add: movement_done_fields distinct_card)
qed


text \<open>
  Claim C7, as stated, fails on three kinds of input. A route that does not list a delivery
  node: with the route \<open>[1]\<close>, the path \<open>[1, 2]\<close> and the delivery node 2 the walk is
  completed and arrives at 2, and the outcome is no success, because only the stops of the
  route are marked as visited. A delivery list with a repetition: with the deliveries
  \<open>[2, 2]\<close> the outcome is a success with one delivery made, fewer than the two entries
  of the list. A start node that is a delivery node: with the deliveries \<open>[1]\<close>, the route
  \<open>[1, 1]\<close> and the path \<open>[1]\<close> the walk is completed, node 1 is on it, and the outcome
  is no success, because a node is marked only when an edge is walked into it.
\<close>

theorem success_iff_every_delivery_visited_counterexample:
  "completed (simulate_movement (two_node_graph 0 False) [2] 500 [1] [1, 2] 1) \<and>
   2 \<in> set [1, 2::int] \<and>
   \<not> success (simulate_movement (two_node_graph 0 False) [2] 500 [1] [1, 2] 1) \<and>
   completed (simulate_movement (two_node_graph 0 False) [2, 2] 500 [1, 2] [1, 2] 1) \<and>
   success (simulate_movement (two_node_graph 0 False) [2, 2] 500 [1, 2] [1, 2] 1) \<and>
   deliveries_made (simulate_movement (two_node_graph 0 False) [2, 2] 500 [1, 2] [1, 2] 1) = 1 \<and>
   length [2, 2::int] = 2 \<and>
   completed (simulate_movement (two_node_graph 0 False) [1] 500 [1, 1] [1] 1) \<and>
   1 \<in> set [1::int] \<and>
   \<not> success (simulate_movement (two_node_graph 0 False) [1] 500 [1, 1] [1] 1)"
  by (simp add: completed_def simulate_movement_def movement_done_def two_node_graph_def
      get_edge_data_def is_edge_blocked_def rain_intensity_effects_def rain_effects_def Let_def)

text \<open>
  Claim C7, amended. Whenever \<^verbatim>\<open>simulate_movement\<close> walks the whole path, for every
  route, path, flags and rain intensity, it reports success exactly when every delivery
  node is a stop of the route (an entry of the route after its first) and is arrived at
  along the walk (an entry of the path after its first: the position the walk starts from
  does not count, so a start node that is a delivery node counts only if the walk comes
  back to it). When the stops of the route are the delivery nodes, which is what the router
  builds (see \<open>router_route_covers_deliveries\<close> below), that is: exactly when every
  delivery node is arrived at along the walk. When the delivery list has no repetitions and
  every stop of the route is a delivery node, a success has as many deliveries made as
  there are delivery nodes, and fewer deliveries made means no success.
\<close>

theorem success_iff_every_delivery_visited:
  assumes "completed (simulate_movement G delivery_nodes bs route path_sequence r)"
  shows "(success (simulate_movement G delivery_nodes bs route path_sequence r) \<longleftrightarrow>
            (\<forall>d \<in> set delivery_nodes. d \<in> set (tl route) \<and> d \<in> set (tl path_sequence))) \<and>
         (set (tl route) = set delivery_nodes \<longrightarrow>
            (success (simulate_movement G delivery_nodes bs route path_sequence r) \<longleftrightarrow>
               (\<forall>d \<in> set delivery_nodes. d \<in> set (tl path_sequence)))) \<and>
         (distinct delivery_nodes \<and> set (tl route) \<subseteq> set delivery_nodes \<longrightarrow>
            (success (simulate_movement G delivery_nodes bs route path_sequence r) \<longrightarrow>
               deliveries_made (simulate_movement G delivery_nodes bs route path_sequence r)
                 = length delivery_nodes) \<and>
            (deliveries_made (simulate_movement G delivery_nodes bs route path_sequence r)
                 < length delivery_nodes \<longrightarrow>
               \<not> success (simulate_movement G delivery_nodes bs route path_sequence r)))"
proof -
  let ?res = "simulate_movement G delivery_nodes bs route path_sequence r"
  let ?D = "set delivery_nodes"
  from movement_loop_completed[OF assms[unfolded simulate_movement_def]]
  have s: "success ?res \<longleftrightarrow> (\<forall>d \<in> ?D. d \<in> set (tl path_sequence) \<and> d \<in> set (tl route))"
    and m: "deliveries_made ?res = card (set (tl path_sequence) \<inter> set (tl route))"
    by (simp_all add: simulate_movement_def)
  from s have general:
    "success ?res \<longleftrightarrow> (\<forall>d \<in> ?D. d \<in> set (tl route) \<and> d \<in> set (tl path_sequence))"
    by auto
  from s have exact: "success ?res \<longleftrightarrow> (\<forall>d \<in> ?D. d \<in> set (tl path_sequence))"
    if "set (tl route) = ?D"
    using that by simp
  have full: "deliveries_made ?res = length delivery_nodes"
    if "success ?res" and dis: "distinct delivery_nodes" and sub: "set (tl route) \<subseteq> ?D"
  proof -
    from that(1) s have "?D \<subseteq> set (tl path_sequence) \<inter> set (tl route)" by auto
    with sub have "set (tl path_sequence) \<inter> set (tl route) = ?D" by auto
    with m dis show ?thesis by (simp add: distinct_card)
  qed
  from general exact full show ?thesis by auto
qed

theorem success_iff_every_delivery_visited_witness:
  "completed (simulate_movement (two_node_graph 0 False) [2] 500 [1, 2] [1, 2] 1) \<and>
   set (tl [1, 2::int]) = set [2] \<and> distinct [2::int] \<and> set (tl [1, 2::int]) \<subseteq> set [2] \<and>
   success (simulate_movement (two_node_graph 0 False) [2] 500 [1, 2] [1, 2] 1) \<and>
   deliveries_made (simulate_movement (two_node_graph 0 False) [2] 500 [1, 2] [1, 2] 1) = length [2::int] \<and>
   completed (simulate_movement (two_node_graph 0 False) [2] 500 [1, 2] [1] 1) \<and>
   \<not> success (simulate_movement (two_node_graph 0 False) [2] 500 [1, 2] [1] 1) \<and>
   completed (simulate_movement (two_node_graph 0 False) [2] 500 [1] [1, 2] 1) \<and>
   \<not> success (simulate_movement (two_node_graph 0 False) [2] 500 [1] [1, 2] 1)"
proof -
  have t: "set (tl [1, 2::int]) = set [2]"
    and d: "distinct [2::int] \<and> set (tl [1, 2::int]) \<subseteq> set [2]" by simp_all
  have c1: "completed (simulate_movement (two_node_graph 0 False) [2] 500 [1, 2] [1, 2] 1)"
    by (simp add: completed_def simulate_movement_def movement_done_def two_node_graph_def
        get_edge_data_def is_edge_blocked_def rain_intensity_effects_def rain_effects_def Let_def)
  have c2: "completed (simulate_movement (two_node_graph 0 False) [2] 500 [1, 2] [1] 1)"
    by (simp add: completed_def simulate_movement_def movement_done_def Let_def)
  have c3: "completed (simulate_movement (two_node_graph 0 False) [2] 500 [1] [1, 2] 1)"
    by (simp add: completed_def simulate_movement_def movement_done_def two_node_graph_def
        get_edge_data_def is_edge_blocked_def rain_intensity_effects_def rain_effects_def Let_def)
  from success_iff_every_delivery_visited [OF c1]
       success_iff_every_delivery_visited [OF c2]
       success_iff_every_delivery_visited [OF c3] t d c1 c2 c3
  show ?thesis by simp
qed

lemma route_loop_covers:
  "route_loop G r unvisited cur route ps td = Inr (Some (route', td', ps')) \<Longrightarrow> route \<noteq> [] \<Longrightarrow>
     set (tl route') = set (tl route) \<union> set unvisited"
proof (induction G r unvisited cur route ps td rule: route_loop.induct)
  case (1 G r unvisited cur route ps td)
  show ?case
  proof (cases "unvisited = []")
    case True
    with "1.prems" show ?thesis by (simp add: route_loop.simps)
  next
    case False
    with "1.prems"(1) obtain n d p where
      scan: "nearest_scan G cur r unvisited None = Inr (Some (n, d, p))"
      and n0: "n \<noteq> 0" and nin: "n \<in> set unvisited"
      and rec: "route_loop G r (removeAll n unvisited) n (route @ [n]) (ps @ tl p) (pf_add td d)
                  = Inr (Some (route', td', ps'))"
      by (subst (asm) route_loop.simps)
         (auto split: sum.splits option.splits if_splits)
    from "1.IH"[OF False scan refl refl refl n0 nin rec] "1.prems"(2)
    have "set (tl route') = set (tl (route @ [n])) \<union> set (removeAll n unvisited)" by simp
    with nin "1.prems"(2) show ?thesis by auto
  qed
qed

lemma router_route_covers_deliveries:
  "find_disaster_aware_route G start dn r = Inr (Some (route, td, ps)) \<Longrightarrow>
     set (tl route) = set dn"
  using route_loop_covers[of G r "remdups dn" start "[start]" "[start]" "Fin 0" route td ps]
  by (simp add: find_disaster_aware_route_def)

section \<open>The router and the trial: properties\<close>

lemmas eval_trial =
  simulate_delivery_def find_disaster_aware_route_def route_loop.simps simulate_movement_def
  movement_done_def movement_failed_def is_edge_blocked_def counts_dict_def
  two_nodes_no_edge_def no_route_result_def no_deliveries_result_def

lemmas eval_run =
  run_simulation_def MonteCarloSimulation_def get_rainfall_probability_by_condition_def
  activate_disasters_def disaster_thresholds_def constant_rain_def constant_draws_def

lemma absent_endpoint:
  "\<not> has_node G s \<or> \<not> has_node G t \<Longrightarrow>
     find_danger_aware_shortest_path G s t r = Inr (None, PInf)"
  by (auto simp: find_danger_aware_shortest_path_def)

lemma nearest_scan_absent_current:
  "\<not> has_node G cur \<Longrightarrow> nearest_scan G cur r ns best = Inr best"
  by (induction ns arbitrary: best) (simp_all add: absent_endpoint)

lemma nearest_scan_choice:
  "nearest_scan G cur r ns best = Inr (Some (n, d, p)) \<Longrightarrow>
     best = Some (n, d, p) \<or> (n \<in> set ns \<and> has_node G n)"
proof (induction ns arbitrary: best)
  case Nil
  then show ?case by simp
next
  case (Cons x xs)
  show ?case
  proof (cases "has_node G x")
    case False
    with Cons.prems have "nearest_scan G cur r xs best = Inr (Some (n, d, p))"
      by (simp add: absent_endpoint)
    from Cons.IH[OF this] show ?thesis by auto
  next
    case True
    from Cons.prems obtain best' where
      rec: "nearest_scan G cur r xs best' = Inr (Some (n, d, p))"
      and b: "best' = best \<or> (\<exists>dx px. best' = Some (x, dx, px))"
      by (auto simp: Let_def split: sum.splits option.splits if_splits prod.splits)
    from Cons.IH[OF rec] b True show ?thesis by auto
  qed
qed

text \<open>
  The node the scan picks is one of the unvisited nodes, so the \<^verbatim>\<open>KeyError\<close> of
  \<^verbatim>\<open>unvisited.remove\<close> cannot arise.
\<close>

lemma nearest_scan_picks_unvisited:
  "nearest_scan G cur r ns None = Inr (Some (n, d, p)) \<Longrightarrow> n \<in> set ns"
  using nearest_scan_choice[of G cur r ns None n d p] by simp

lemma route_loop_absent_delivery:
  "x \<in> set unvisited \<Longrightarrow> \<not> has_node G x \<Longrightarrow>
     route_loop G r unvisited cur route ps td = Inr res \<Longrightarrow> res = None"
proof (induction G r unvisited cur route ps td rule: route_loop.induct)
  case (1 G r unvisited cur route ps td)
  from "1.prems"(1) have ne: "unvisited \<noteq> []" by auto
  show ?case
  proof (cases "nearest_scan G cur r unvisited None")
    case (Inl e)
    with "1.prems"(3) ne show ?thesis by (subst (asm) route_loop.simps) simp
  next
    case (Inr best)
    show ?thesis
    proof (cases best)
      case None
      with Inr "1.prems"(3) ne show ?thesis by (subst (asm) route_loop.simps) simp
    next
      case (Some triple)
      obtain n d p where t: "triple = (n, d, p)" by (cases triple)
      have scan: "nearest_scan G cur r unvisited None = Inr (Some (n, d, p))"
        using Inr Some t by simp
      from nearest_scan_choice[OF scan] have hn: "has_node G n" by simp
      with "1.prems"(2) have nx: "n \<noteq> x" by auto
      show ?thesis
      proof (cases "n \<noteq> 0 \<and> n \<in> set unvisited")
        case True
        with scan "1.prems"(3) ne have
          rec: "route_loop G r (removeAll n unvisited) n (route @ [n]) (ps @ tl p) (pf_add td d) = Inr res"
          by (subst (asm) route_loop.simps) simp
        have xin: "x \<in> set (removeAll n unvisited)" using "1.prems"(1) nx by simp
        from "1.IH"[OF ne scan refl refl refl _ _ xin "1.prems"(2) rec] True
        show ?thesis by simp
      next
        case False
        with scan "1.prems"(3) ne show ?thesis
          by (subst (asm) route_loop.simps) (auto split: if_splits)
      qed
    qed
  qed
qed

lemma route_loop_absent_start:
  "unvisited \<noteq> [] \<Longrightarrow> \<not> has_node G cur \<Longrightarrow>
     route_loop G r unvisited cur route ps td = Inr None"
  by (subst route_loop.simps) (simp add: nearest_scan_absent_current)

lemma simulate_delivery_no_route:
  "find_disaster_aware_route G start dn r = Inr None \<Longrightarrow>
     simulate_delivery G start dn bs r = Inr no_route_result"
  by (simp add: simulate_delivery_def no_route_result_def)

text \<open>
  Claim C5, as stated, fails: nothing checks the delivery set or the nodes when the
  orchestrator is built. Built with an empty delivery set it runs its trial, and the trial
  reports success.
\<close>

theorem empty_delivery_set_counterexample:
  "run_simulation (MonteCarloSimulation (two_node_graph 0 False) 1 [] 2 ''Process-1'') 1 1
      (constant_rain 1) (constant_draws 0.5)
   = (\<lparr>self_base_speed = 500, self_num_delivery_points = 7,
        self_G = two_node_graph 0 False, self_completed_simulations = 1,
        self_start_node = 1, self_delivery_nodes = [], self_ideal_delivery_time = 2,
        self_weather_severity = Some 1,
        self_all_runs =
          [[(''reroutes'', PInt 0), (''success'', PBool True), (''distance'', PNum 0),
            (''time'', PNum 0), (''deliveries_made'', PInt 0),
            (''disaster_encounters'', PDict [(''floods'', PInt 0), (''landslides'', PInt 0)]),
            (''reason'', PStr ''All deliveries completed''),
            (''rain_intensity'', PInt 1),
            (''activated_disasters'', PDict [(''floods'', PInt 0), (''landslides'', PInt 0)])]],
        self_worker_name = ''Process-1''\<rparr>, None)"
  by (simp add: eval_run eval_trial eval_pathfinder)

text \<open>
  Claim C5, amended. The constructor stores the graph, the start node and the delivery
  nodes as given and cannot fail. What the inputs are shows in the trials: with an empty
  delivery set a trial reports success with no distance, no time and no delivery; with a
  non-empty delivery set and a start node that is not in the graph a trial returns the
  no-route record; with a delivery node that is not in the graph a trial returns the
  no-route record unless it raises.
\<close>

theorem construction_checks_nothing:
  "self_G (MonteCarloSimulation G start dn ideal w) = G \<and>
   self_start_node (MonteCarloSimulation G start dn ideal w) = start \<and>
   self_delivery_nodes (MonteCarloSimulation G start dn ideal w) = dn \<and>
   simulate_delivery G start [] bs r = Inr no_deliveries_result \<and>
   (dn \<noteq> [] \<and> \<not> has_node G start \<longrightarrow>
      simulate_delivery G start dn bs r = Inr no_route_result) \<and>
   ((\<exists>d \<in> set dn. \<not> has_node G d) \<longrightarrow>
      simulate_delivery G start dn bs r = Inr no_route_result \<or>
      (\<exists>e. simulate_delivery G start dn bs r = Inl e))"
proof (intro conjI impI)
  show "simulate_delivery G start [] bs r = Inr no_deliveries_result"
    by (simp add: simulate_delivery_def find_disaster_aware_route_def route_loop.simps
        simulate_movement_def movement_done_def counts_dict_def no_deliveries_result_def)
next
  assume a: "dn \<noteq> [] \<and> \<not> has_node G start"
  then have "remdups dn \<noteq> []" by simp
  with a have "find_disaster_aware_route G start dn r = Inr None"
    by (simp add: find_disaster_aware_route_def route_loop_absent_start)
  then show "simulate_delivery G start dn bs r = Inr no_route_result"
    by (rule simulate_delivery_no_route)
next
  assume "\<exists>d \<in> set dn. \<not> has_node G d"
  then obtain x where x: "x \<in> set (remdups dn)" "\<not> has_node G x" by auto
  show "simulate_delivery G start dn bs r = Inr no_route_result \<or>
        (\<exists>e. simulate_delivery G start dn bs r = Inl e)"
  proof (cases "find_disaster_aware_route G start dn r")
    case (Inl e)
    then show ?thesis by (simp add: simulate_delivery_def)
  next
    case (Inr res)
    with route_loop_absent_delivery[OF x] have "res = None"
      by (simp add: find_disaster_aware_route_def)
    with Inr show ?thesis by (simp add: simulate_delivery_no_route)
  qed
qed (simp_all add: MonteCarloSimulation_def)


theorem construction_checks_nothing_witness:
  "[2::int] \<noteq> [] \<and> \<not> has_node (two_node_graph 0 False) 3 \<and>
   simulate_delivery (two_node_graph 0 False) 3 [2] 500 1 = Inr no_route_result \<and>
   (\<exists>d \<in> set [7::int]. \<not> has_node (two_node_graph 0 False) d) \<and>
   simulate_delivery (two_node_graph 0 False) 1 [7] 500 1 = Inr no_route_result \<and>
   simulate_delivery (two_node_graph 0 False) 1 [] 500 1 = Inr no_deliveries_result"
proof -
  have h1: "[2::int] \<noteq> [] \<and> \<not> has_node (two_node_graph 0 False) 3"
    by (simp add: has_node_def g_nodes_def two_node_graph_def)
  have h2: "\<exists>d \<in> set [7::int]. \<not> has_node (two_node_graph 0 False) d"
    by (simp add: has_node_def g_nodes_def two_node_graph_def)
  have e: "simulate_delivery (two_node_graph 0 False) 1 [7] 500 1 \<noteq> Inl e" for e
    by (simp add: eval_trial eval_pathfinder)
  from construction_checks_nothing [of "two_node_graph 0 False" 3 "[2]" 0 "''w''" 500 1]
       construction_checks_nothing [of "two_node_graph 0 False" 1 "[7]" 0 "''w''" 500 1]
       h1 h2 e
  show ?thesis by auto
qed

text \<open>
  Claim C2 does not hold of the code. In the two-node graph whose edge has flood proneness
  1, at rain intensity 5 every pair of random values in \<open>[0, 1)\<close> floods the edge and no
  landslide is set, as the claim says. But the router then finds the route over the flooded
  edge, and the trial fails in the movement step: its reason is
  \<^verbatim>\<open>Encountered blocked road\<close>, not \<^verbatim>\<open>No valid route found initially\<close>.
\<close>

theorem flooded_scenario_reports_blocked_road:
  "0 \<le> rnd k \<and> rnd k < 1 \<and> 0 \<le> rnd (k + 1) \<and> rnd (k + 1) < 1 \<Longrightarrow>
   activate_disasters (two_node_graph 1 fl) 5 rnd k = (two_node_graph 1 True, (1, 0), k + 2) \<and>
   find_disaster_aware_route (two_node_graph 1 True) 1 [2] 5 = Inr (Some ([1, 2], Fin 1000, [1, 2])) \<and>
   simulate_delivery (two_node_graph 1 True) 1 [2] 500 5
     = Inr [(''reroutes'', PInt 0), (''success'', PBool False), (''distance'', PNum 0),
            (''time'', PNum 0), (''deliveries_made'', PInt 0),
            (''disaster_encounters'', PDict [(''floods'', PInt 0), (''landslides'', PInt 0)]),
            (''reason'', PStr ''Encountered blocked road'')]"
proof (intro conjI)
  assume a: "0 \<le> rnd k \<and> rnd k < 1 \<and> 0 \<le> rnd (k + 1) \<and> rnd (k + 1) < 1"
  then show "activate_disasters (two_node_graph 1 fl) 5 rnd k = (two_node_graph 1 True, (1, 0), k + 2)"
    by (simp add: activate_disasters_def disaster_thresholds_def rain_intensity_effects_def
        rain_effects_def two_node_graph_def)
  show "find_disaster_aware_route (two_node_graph 1 True) 1 [2] 5 = Inr (Some ([1, 2], Fin 1000, [1, 2]))"
    by (simp add: eval_trial eval_pathfinder)
  show "simulate_delivery (two_node_graph 1 True) 1 [2] 500 5
     = Inr [(''reroutes'', PInt 0), (''success'', PBool False), (''distance'', PNum 0),
            (''time'', PNum 0), (''deliveries_made'', PInt 0),
            (''disaster_encounters'', PDict [(''floods'', PInt 0), (''landslides'', PInt 0)]),
            (''reason'', PStr ''Encountered blocked road'')]"
    by (simp add: eval_trial eval_pathfinder)
qed

theorem flooded_scenario_reports_blocked_road_witness:
  "0 \<le> constant_draws 0.5 0 \<and> constant_draws 0.5 0 < 1 \<and>
   0 \<le> constant_draws 0.5 (0 + 1) \<and> constant_draws 0.5 (0 + 1) < 1 \<and>
   activate_disasters (two_node_graph 1 False) 5 (constant_draws 0.5) 0
     = (two_node_graph 1 True, (1, 0), 0 + 2) \<and>
   simulate_delivery (two_node_graph 1 True) 1 [2] 500 5
     = Inr [(''reroutes'', PInt 0), (''success'', PBool False), (''distance'', PNum 0),
            (''time'', PNum 0), (''deliveries_made'', PInt 0),
            (''disaster_encounters'', PDict [(''floods'', PInt 0), (''landslides'', PInt 0)]),
            (''reason'', PStr ''Encountered blocked road'')]"
proof -
  have h: "0 \<le> constant_draws 0.5 0 \<and> constant_draws 0.5 0 < 1 \<and>
           0 \<le> constant_draws 0.5 (0 + 1) \<and> constant_draws 0.5 (0 + 1) < 1"
    by (simp add: constant_draws_def)
  from flooded_scenario_reports_blocked_road [OF h, of False] h show ?thesis by simp
qed

text \<open>
  Claim C4 does not hold of the code. With two nodes and no edge between them the router
  finds no route and \<^verbatim>\<open>simulate_delivery\<close> returns its early record: success false,
  distance 0 and time 0, but no key \<^verbatim>\<open>deliveries_made\<close> and an empty dictionary of
  disaster encounters. \<^verbatim>\<open>run_simulation\<close> stores the record with the two keys it
  adds, and still without these fields.
\<close>

theorem no_route_result_lacks_fields:
  "simulate_delivery two_nodes_no_edge 1 [2] 500 1 = Inr no_route_result \<and>
   map_of no_route_result ''success'' = Some (PBool False) \<and>
   map_of no_route_result ''distance'' = Some (PNum 0) \<and>
   map_of no_route_result ''time'' = Some (PNum 0) \<and>
   map_of no_route_result ''deliveries_made'' = None \<and>
   map_of no_route_result ''disaster_encounters'' = Some (PDict []) \<and>
   self_all_runs (fst (run_simulation (MonteCarloSimulation two_nodes_no_edge 1 [2] 2 ''Process-1'')
                         1 1 (constant_rain 1) (constant_draws 0.5)))
     = [no_route_result @
        [(''rain_intensity'', PInt 1),
         (''activated_disasters'', PDict [(''floods'', PInt 0), (''landslides'', PInt 0)])]]"
  by (simp add: eval_run eval_trial eval_pathfinder)


section \<open>The worker process: properties\<close>

text \<open>
  Claim C3 does not hold of the code. Whenever \<^verbatim>\<open>run_simulation\<close> raises, the worker
  puts the failure marker on the queue and then the simulation object as well: two
  messages, the marker and a result. The examples are a weather severity outside the
  table (\<^verbatim>\<open>KeyError\<close> in the first trial) and a run of zero trials
  (\<^verbatim>\<open>ZeroDivisionError\<close> in the summary).
\<close>

theorem worker_error_puts_marker_and_simulation:
  "run_simulation (MonteCarloSimulation G start dn ideal w) n ws rain rnd = (sim', Some e) \<Longrightarrow>
     process_worker G start dn ideal ws n w rain rnd = [None, Some sim']"
  by (simp add: process_worker_def)

theorem worker_error_puts_marker_and_simulation_witness:
  "run_simulation (MonteCarloSimulation (two_node_graph 0 False) 1 [2] 2 ''Process-6'') 1 6
       (constant_rain 1) (constant_draws 0.5)
     = ((MonteCarloSimulation (two_node_graph 0 False) 1 [2] 2 ''Process-6'')
          \<lparr>self_weather_severity := Some 6\<rparr>, Some KeyError) \<and>
   process_worker (two_node_graph 0 False) 1 [2] 2 6 1 ''Process-6'' (constant_rain 1) (constant_draws 0.5)
     = [None, Some ((MonteCarloSimulation (two_node_graph 0 False) 1 [2] 2 ''Process-6'')
                      \<lparr>self_weather_severity := Some 6\<rparr>)] \<and>
   run_simulation (MonteCarloSimulation (two_node_graph 0 False) 1 [2] 2 ''Process-1'') 0 1
       (constant_rain 1) (constant_draws 0.5)
     = ((MonteCarloSimulation (two_node_graph 0 False) 1 [2] 2 ''Process-1'')
          \<lparr>self_weather_severity := Some 1\<rparr>, Some ZeroDivisionError) \<and>
   process_worker (two_node_graph 0 False) 1 [2] 2 1 0 ''Process-1'' (constant_rain 1) (constant_draws 0.5)
     = [None, Some ((MonteCarloSimulation (two_node_graph 0 False) 1 [2] 2 ''Process-1'')
                      \<lparr>self_weather_severity := Some 1\<rparr>)]"
proof -
  have h: "run_simulation (MonteCarloSimulation (two_node_graph 0 False) 1 [2] 2 ''Process-6'') 1 6
       (constant_rain 1) (constant_draws 0.5)
     = ((MonteCarloSimulation (two_node_graph 0 False) 1 [2] 2 ''Process-6'')
          \<lparr>self_weather_severity := Some 6\<rparr>, Some KeyError)"
    by (simp add: run_simulation_def get_rainfall_probability_by_condition_def)
  have z: "run_simulation (MonteCarloSimulation (two_node_graph 0 False) 1 [2] 2 ''Process-1'') 0 1
       (constant_rain 1) (constant_draws 0.5)
     = ((MonteCarloSimulation (two_node_graph 0 False) 1 [2] 2 ''Process-1'')
          \<lparr>self_weather_severity := Some 1\<rparr>, Some ZeroDivisionError)"
    by (simp add: run_simulation_def MonteCarloSimulation_def)
  from worker_error_puts_marker_and_simulation [OF h]
       worker_error_puts_marker_and_simulation [OF z] h z
  show ?thesis by simp
qed

end
